theory Spec2Isabelle
  imports Main
begin

unbundle bit_operations_syntax

section \<open>The in-memory cache of server.js\<close>

text \<open>
  \<^verbatim>\<open>const cache = new Map(); // key -> { expiresAt: number, data: any }\<close>

  The module-level \<open>Map\<close> is passed explicitly: every operation takes the cache and
  returns the updated one. \<open>Date.now()\<close> is an integer number of milliseconds and
  is a parameter \<open>now\<close> of each operation that reads the clock. The time-to-live is
  an integer number of milliseconds as well.
\<close>

record 'v cache_item =
  expiresAt :: int
  data :: 'v

type_synonym 'v cache = "string \<rightharpoonup> 'v cache_item"

text \<open>
  \<^verbatim>\<open>
  function getCache(key) {
    const item = cache.get(key);
    if (!item) return null;
    if (Date.now() > item.expiresAt) {
      cache.delete(key);
      return null;
    }
    return item.data;
  }
  \<close>
  The result \<open>null\<close> is \<open>None\<close>.
\<close>

definition getCache :: "int \<Rightarrow> 'v cache \<Rightarrow> string \<Rightarrow> 'v option \<times> 'v cache" where
  "getCache now c key =
     (case c key of
        None \<Rightarrow> (None, c)
      | Some item \<Rightarrow>
          if now > expiresAt item then (None, c(key := None))
          else (Some (data item), c))"

text \<open>
  \<^verbatim>\<open>
  function setCache(key, data, ttlMs = CACHE_TTL_MS) {
    cache.set(key, { expiresAt: Date.now() + ttlMs, data });
  }
  \<close>
\<close>

definition setCache :: "int \<Rightarrow> 'v cache \<Rightarrow> string \<Rightarrow> 'v \<Rightarrow> int \<Rightarrow> 'v cache" where
  "setCache now c key d ttlMs = c(key \<mapsto> \<lparr>expiresAt = now + ttlMs, data = d\<rparr>)"

section \<open>The key deriver\<close>

text \<open>
  \<^verbatim>\<open>
  function cacheKey(parts) {
    return crypto.createHash("md5").update(parts.join("|")).digest("hex");
  }
  \<close>

  A JavaScript string is modelled as a \<open>string\<close> whose characters are the code units
  \<open>0..255\<close>. \<open>Array.prototype.join\<close> puts the separator between the parts.
  \<open>update\<close> hashes the UTF-8 encoding of the string, \<open>digest("hex")\<close> prints the
  sixteen bytes of the digest as lower-case hexadecimal. MD5 is the algorithm of RFC 1321
  on 32-bit words, written here on \<open>nat\<close> with the wrap-around \<open>mod 2 ^ 32\<close>
  spelled out.
\<close>

fun join :: "string \<Rightarrow> string list \<Rightarrow> string" where
  "join sep [] = []"
| "join sep [p] = p"
| "join sep (p # q # ps) = p @ sep @ join sep (q # ps)"

definition utf8 :: "char \<Rightarrow> nat list" where
  "utf8 c = (if of_char c < (128::nat) then [of_char c]
             else [192 + of_char c div 64, 128 + of_char c mod 64])"

definition le_bytes4 :: "nat \<Rightarrow> nat list" where
  "le_bytes4 n = [n mod 256, n div 256 mod 256, n div 65536 mod 256, n div 16777216 mod 256]"

definition le_bytes8 :: "nat \<Rightarrow> nat list" where
  "le_bytes8 n = le_bytes4 (n mod 4294967296) @ le_bytes4 (n div 4294967296 mod 4294967296)"

text \<open>
  Padding: the byte \<open>0x80\<close>, zero bytes up to 56 modulo 64, then the length of the
  message in bits as a 64-bit little-endian number.
\<close>

definition md5_pad :: "nat list \<Rightarrow> nat list" where
  "md5_pad m = m @ [128] @ replicate ((119 - length m mod 64) mod 64) 0
                 @ le_bytes8 (8 * length m)"

fun le_words :: "nat list \<Rightarrow> nat list" where
  "le_words (b0 # b1 # b2 # b3 # bs) =
     (b0 + 256 * b1 + 65536 * b2 + 16777216 * b3) # le_words bs"
| "le_words _ = []"

function chunks :: "nat \<Rightarrow> 'a list \<Rightarrow> 'a list list" where
  "chunks n xs = (if n = 0 \<or> length xs < n then [] else take n xs # chunks n (drop n xs))"
  by pat_completeness auto
termination
  by (relation "measure (\<lambda>(n, xs). length xs)") auto

declare chunks.simps [simp del]

definition md5_K :: "nat list" where
  "md5_K =
    [0xd76aa478, 0xe8c7b756, 0x242070db, 0xc1bdceee, 0xf57c0faf, 0x4787c62a, 0xa8304613,
     0xfd469501, 0x698098d8, 0x8b44f7af, 0xffff5bb1, 0x895cd7be, 0x6b901122, 0xfd987193,
     0xa679438e, 0x49b40821, 0xf61e2562, 0xc040b340, 0x265e5a51, 0xe9b6c7aa, 0xd62f105d,
     0x02441453, 0xd8a1e681, 0xe7d3fbc8, 0x21e1cde6, 0xc33707d6, 0xf4d50d87, 0x455a14ed,
     0xa9e3e905, 0xfcefa3f8, 0x676f02d9, 0x8d2a4c8a, 0xfffa3942, 0x8771f681, 0x6d9d6122,
     0xfde5380c, 0xa4beea44, 0x4bdecfa9, 0xf6bb4b60, 0xbebfbc70, 0x289b7ec6, 0xeaa127fa,
     0xd4ef3085, 0x04881d05, 0xd9d4d039, 0xe6db99e5, 0x1fa27cf8, 0xc4ac5665, 0xf4292244,
     0x432aff97, 0xab9423a7, 0xfc93a039, 0x655b59c3, 0x8f0ccc92, 0xffeff47d, 0x85845dd1,
     0x6fa87e4f, 0xfe2ce6e0, 0xa3014314, 0x4e0811a1, 0xf7537e82, 0xbd3af235, 0x2ad7d2bb,
     0xeb86d391]"

definition md5_s :: "nat list" where
  "md5_s = [7, 12, 17, 22, 7, 12, 17, 22, 7, 12, 17, 22, 7, 12, 17, 22,
            5, 9, 14, 20, 5, 9, 14, 20, 5, 9, 14, 20, 5, 9, 14, 20,
            4, 11, 16, 23, 4, 11, 16, 23, 4, 11, 16, 23, 4, 11, 16, 23,
            6, 10, 15, 21, 6, 10, 15, 21, 6, 10, 15, 21, 6, 10, 15, 21]"

definition add32 :: "nat \<Rightarrow> nat \<Rightarrow> nat" where
  "add32 x y = (x + y) mod 4294967296"

definition not32 :: "nat \<Rightarrow> nat" where
  "not32 x = 4294967295 - x mod 4294967296"

definition rotl32 :: "nat \<Rightarrow> nat \<Rightarrow> nat" where
  "rotl32 s x = (x * 2 ^ s) mod 4294967296 + x div 2 ^ (32 - s)"

definition md5_F :: "nat \<Rightarrow> nat \<Rightarrow> nat \<Rightarrow> nat \<Rightarrow> nat" where
  "md5_F i b c d =
     (if i < 16 then (b AND c) OR (not32 b AND d)
      else if i < 32 then (d AND b) OR (not32 d AND c)
      else if i < 48 then b XOR c XOR d
      else c XOR (b OR not32 d))"

definition md5_g :: "nat \<Rightarrow> nat" where
  "md5_g i =
     (if i < 16 then i
      else if i < 32 then (5 * i + 1) mod 16
      else if i < 48 then (3 * i + 5) mod 16
      else (7 * i) mod 16)"

type_synonym md5_state = "nat \<times> nat \<times> nat \<times> nat"

fun md5_step :: "nat list \<Rightarrow> nat \<Rightarrow> md5_state \<Rightarrow> md5_state" where
  "md5_step M i (a, b, c, d) =
     (d,
      add32 b (rotl32 (md5_s ! i)
                 (add32 (add32 (add32 (md5_F i b c d) a) (md5_K ! i)) (M ! md5_g i))),
      b, c)"

function md5_rounds :: "nat list \<Rightarrow> nat \<Rightarrow> md5_state \<Rightarrow> md5_state" where
  "md5_rounds M i st = (if i < 64 then md5_rounds M (i + 1) (md5_step M i st) else st)"
  by pat_completeness auto
termination
  by (relation "measure (\<lambda>(M, i, st). 64 - i)") auto

declare md5_rounds.simps [simp del]

fun md5_block :: "md5_state \<Rightarrow> nat list \<Rightarrow> md5_state" where
  "md5_block (a0, b0, c0, d0) blk =
     (case md5_rounds (le_words blk) 0 (a0, b0, c0, d0) of
        (a, b, c, d) \<Rightarrow> (add32 a0 a, add32 b0 b, add32 c0 c, add32 d0 d))"

definition md5 :: "nat list \<Rightarrow> nat list" where
  "md5 m =
     (case foldl md5_block (0x67452301, 0xefcdab89, 0x98badcfe, 0x10325476)
             (chunks 64 (md5_pad m)) of
        (a, b, c, d) \<Rightarrow> le_bytes4 a @ le_bytes4 b @ le_bytes4 c @ le_bytes4 d)"

definition hex_digit :: "nat \<Rightarrow> char" where
  "hex_digit n = ''0123456789abcdef'' ! n"

definition hex :: "nat list \<Rightarrow> string" where
  "hex bs = concat (map (\<lambda>b. [hex_digit (b div 16), hex_digit (b mod 16)]) bs)"

definition cacheKey :: "string list \<Rightarrow> string" where
  "cacheKey parts = hex (md5 (concat (map utf8 (join ''|'' parts))))"

section \<open>Turning a grid into records\<close>

text \<open>
  A grid is what \<open>spreadsheets.values.get\<close> returns in \<open>res.data.values\<close>: a list of
  rows, each a list of cell strings, of unequal lengths.

  \<open>String.prototype.trim\<close> strips white space and line terminators at both ends; among
  the code units \<open>0..255\<close> these are tab, line feed, vertical tab, form feed, carriage
  return, space and the no-break space.
\<close>

definition is_ws :: "char \<Rightarrow> bool" where
  "is_ws c = (of_char c \<in> {9, 10, 11, 12, 13, 32, 160 :: nat})"

definition trim :: "string \<Rightarrow> string" where
  "trim s = rev (dropWhile is_ws (rev (dropWhile is_ws s)))"

text \<open>The decimal digits of a number, as the template literal \<^verbatim>\<open>`Col${i + 1}`\<close> prints them.\<close>

definition digit :: "nat \<Rightarrow> char" where
  "digit n = ''0123456789'' ! n"

fun num_to_string :: "nat \<Rightarrow> string" where
  "num_to_string n =
     (if n < 10 then [digit n] else num_to_string (n div 10) @ [digit (n mod 10)])"

declare num_to_string.simps [simp del]

definition col_name :: "nat \<Rightarrow> string" where
  "col_name i = ''Col'' @ num_to_string (i + 1)"

text \<open>
  A record is the plain object \<^verbatim>\<open>const obj = {}\<close>: a finite map from property names to
  strings. The assignment \<^verbatim>\<open>obj[k] = v\<close> creates or overwrites the own property \<open>k\<close>,
  except for the name \<^verbatim>\<open>__proto__\<close>: that one is an accessor inherited from
  \<open>Object.prototype\<close>, whose setter ignores a value that is not an object, so assigning a
  string to it leaves the object without such a property.
\<close>

type_synonym obj = "string \<rightharpoonup> string"

definition obj_set :: "obj \<Rightarrow> string \<Rightarrow> string \<Rightarrow> obj" where
  "obj_set obj k v = (if k = ''__proto__'' then obj else obj(k \<mapsto> v))"

text \<open>\<^verbatim>\<open>row[i] ?? ""\<close>: reading past the end of the row gives \<open>undefined\<close>, hence \<open>""\<close>.\<close>

definition cell :: "string list \<Rightarrow> nat \<Rightarrow> string" where
  "cell row i = (if i < length row then row ! i else '''')"

text \<open>\<^verbatim>\<open>h || `Col${i + 1}`\<close>: the empty string is falsy.\<close>

definition header_key :: "nat \<Rightarrow> string \<Rightarrow> string" where
  "header_key i h = (if h = [] then col_name i else h)"

text \<open>
  \<^verbatim>\<open>
  headers.forEach((h, i) => {
    obj[h || `Col${i + 1}`] = row[i] ?? "";
  });
  \<close>
  and, in the other branch, the same loop over \<open>genHeaders\<close> with the key \<open>h\<close> itself.
  The loop runs over the list from index \<open>i\<close> on; \<open>key\<close> computes the property name.
\<close>

fun forEach_set ::
  "(nat \<Rightarrow> string \<Rightarrow> string) \<Rightarrow> string list \<Rightarrow> nat \<Rightarrow> string list \<Rightarrow> obj \<Rightarrow> obj" where
  "forEach_set key [] i row obj = obj"
| "forEach_set key (h # hs) i row obj =
     forEach_set key hs (Suc i) row (obj_set obj (key i h) (cell row i))"

text \<open>\<^verbatim>\<open>Array.from({ length: maxLen }, (_, i) => `Col${i + 1}`)\<close>\<close>

definition genHeaders :: "nat \<Rightarrow> string list" where
  "genHeaders maxLen = map col_name [0..<maxLen]"

record sheet_json =
  tab :: string
  headers :: "string list"
  rows :: "obj list"

text \<open>
  The part of \<open>readSheetToJson\<close> that builds the result from the rows fetched:
  \<^verbatim>\<open>
  if (rows.length === 0) {
    const empty = { tab: tabName, headers: [], rows: [] };
    ...
  }
  const headers = rows[0].map((h) => (h || "").trim());
  const body = rows.slice(1);
  const hasHeaders = headers.some((h) => h.length > 0);
  let data;
  if (hasHeaders) {
    data = body.map((row) => { const obj = {}; headers.forEach(...); return obj; });
  } else {
    const maxLen = Math.max(...rows.map((r) => r.length));
    const genHeaders = Array.from({ length: maxLen }, (_, i) => `Col${i + 1}`);
    data = body.map((row) => { const obj = {}; genHeaders.forEach(...); return obj; });
  }
  const result = { tab: tabName, headers, rows: data };
  \<close>
\<close>

definition normalize_grid :: "string \<Rightarrow> string list list \<Rightarrow> sheet_json" where
  "normalize_grid tabName rws =
     (case rws of
        [] \<Rightarrow> \<lparr>tab = tabName, headers = [], rows = []\<rparr>
      | r0 # body \<Rightarrow>
          if list_ex (\<lambda>h. length h > 0) (map trim r0)
          then \<lparr>tab = tabName, headers = map trim r0,
                rows = map (\<lambda>row. forEach_set header_key (map trim r0) 0 row Map.empty) body\<rparr>
          else \<lparr>tab = tabName, headers = map trim r0,
                rows = map (\<lambda>row. forEach_set (\<lambda>i h. h)
                                   (genHeaders (Max (set (map length rws)))) 0 row Map.empty)
                         body\<rparr>)"

section \<open>The sheet loader\<close>

text \<open>
  The cache holds the two kinds of value that the loaders store: the list of tab names and
  the result of reading one tab. Both are an array or an object, hence truthy, so the test
  \<^verbatim>\<open>if (cached) return cached;\<close> succeeds exactly when \<open>getCache\<close> did not return
  \<open>null\<close>.
\<close>

datatype cached = Tabs "string list" | Sheet sheet_json

text \<open>
  The configuration read from the environment at start-up. \<open>SHEET_ID\<close> is the empty
  string when the variable is not set: \<open>!SHEET_ID\<close> and \<open>join\<close> treat \<open>undefined\<close>
  and \<open>""\<close> alike. \<open>CACHE_TTL_MS\<close> is a whole number of milliseconds, 300000 unless
  the environment says otherwise.
\<close>

record config =
  SHEET_ID :: string
  CACHE_TTL_MS :: int

text \<open>
  The state of the process: the cache, and the log of the calls made to the upstream
  service, \<open>sheets.spreadsheets.get\<close> for the tab list and
  \<open>sheets.spreadsheets.values.get\<close> with its range for a grid. A call is logged when
  the loader sets out to fetch, that is when it reaches \<^verbatim>\<open>await getSheetsApi()\<close>.
\<close>

datatype request = SpreadsheetsGet | ValuesGet string

record state =
  cache :: "cached cache"
  requests :: "request list"

text \<open>
  \<^verbatim>\<open>meta.data.sheets?.map((s) => s.properties?.title).filter(Boolean) || []\<close>

  \<open>sheets\<close> is \<open>None\<close> when the response has no \<open>sheets\<close>, and a title is \<open>None\<close>
  when a sheet has no \<open>properties\<close> or no \<open>title\<close>; \<open>filter(Boolean)\<close> drops these and
  the empty titles.
\<close>

definition titles :: "string option list option \<Rightarrow> string list" where
  "titles sheets =
     (case sheets of
        None \<Rightarrow> []
      | Some ss \<Rightarrow> map the (filter (\<lambda>t. t \<noteq> None \<and> t \<noteq> Some []) ss))"

text \<open>
  \<^verbatim>\<open>
  async function listSheetTabs() {
    const key = cacheKey(["tabs", SHEET_ID]);
    const cached = getCache(key);
    if (cached) return cached;
    const sheets = await getSheetsApi();
    const meta = await sheets.spreadsheets.get({ spreadsheetId: SHEET_ID, includeGridData: false });
    const tabs = meta.data.sheets?.map((s) => s.properties?.title).filter(Boolean) || [];
    setCache(key, tabs);
    return tabs;
  }
  \<close>

  What the outside world does during the call is a parameter: \<open>now_get\<close> and \<open>now_set\<close>
  are the readings of \<open>Date.now()\<close> in \<open>getCache\<close> and in \<open>setCache\<close>, and \<open>meta\<close> is
  the outcome of the upstream fetch, \<open>Inl e\<close> when \<open>getSheetsApi\<close> or the request throws
  \<open>e\<close>. The exception propagates to the caller of the loader.
\<close>

definition listSheetTabs ::
  "config \<Rightarrow> int \<Rightarrow> int \<Rightarrow> 'e + string option list option \<Rightarrow> state \<Rightarrow> ('e + cached) \<times> state" where
  "listSheetTabs cfg now_get now_set meta s =
     (let key = cacheKey [''tabs'', SHEET_ID cfg] in
      case getCache now_get (cache s) key of
        (Some hit, c1) \<Rightarrow> (Inr hit, s\<lparr>cache := c1\<rparr>)
      | (None, c1) \<Rightarrow>
          (case meta of
             Inl e \<Rightarrow> (Inl e, s\<lparr>cache := c1, requests := requests s @ [SpreadsheetsGet]\<rparr>)
           | Inr sheets \<Rightarrow>
               (Inr (Tabs (titles sheets)),
                s\<lparr>cache := setCache now_set c1 key (Tabs (titles sheets)) (CACHE_TTL_MS cfg),
                  requests := requests s @ [SpreadsheetsGet]\<rparr>)))"

text \<open>
  \<^verbatim>\<open>
  async function readSheetToJson(tabName) {
    const key = cacheKey(["data", SHEET_ID, tabName]);
    const cached = getCache(key);
    if (cached) return cached;
    const sheets = await getSheetsApi();
    const range = `'${tabName}'`;
    const res = await sheets.spreadsheets.values.get({ spreadsheetId: SHEET_ID, range });
    const rows = res.data.values || [];
    ...
    setCache(key, result);
    return result;
  }
  \<close>

  \<open>res\<close> is the outcome of the upstream fetch: \<open>Inl e\<close> when it throws, otherwise
  \<open>res.data.values\<close>, which is \<open>None\<close> (undefined) for a sheet without values.
\<close>

definition readSheetToJson ::
  "config \<Rightarrow> int \<Rightarrow> int \<Rightarrow> 'e + string list list option \<Rightarrow> string \<Rightarrow> state
     \<Rightarrow> ('e + cached) \<times> state" where
  "readSheetToJson cfg now_get now_set res tabName s =
     (let key = cacheKey [''data'', SHEET_ID cfg, tabName] in
      case getCache now_get (cache s) key of
        (Some hit, c1) \<Rightarrow> (Inr hit, s\<lparr>cache := c1\<rparr>)
      | (None, c1) \<Rightarrow>
          (let range = [CHR 0x27] @ tabName @ [CHR 0x27] in
           case res of
             Inl e \<Rightarrow> (Inl e, s\<lparr>cache := c1, requests := requests s @ [ValuesGet range]\<rparr>)
           | Inr values \<Rightarrow>
               (let rws = (case values of None \<Rightarrow> [] | Some v \<Rightarrow> v);
                    result = Sheet (normalize_grid tabName rws)
                in (Inr result,
                    s\<lparr>cache := setCache now_set c1 key result (CACHE_TTL_MS cfg),
                      requests := requests s @ [ValuesGet range]\<rparr>))))"

text \<open>The number of grid fetches made so far.\<close>

fun is_ValuesGet :: "request \<Rightarrow> bool" where
  "is_ValuesGet (ValuesGet r) = True"
| "is_ValuesGet SpreadsheetsGet = False"

definition grid_fetches :: "state \<Rightarrow> nat" where
  "grid_fetches s = length (filter is_ValuesGet (requests s))"

section \<open>The data endpoint\<close>

text \<open>
  \<^verbatim>\<open>
  app.get("/api/data/:tab", async (req, res) => {
    const tab = req.params.tab;
    try {
      if (!SHEET_ID) {
        return res.status(400).json({ error: "Falta configurar SHEET_ID en variables de entorno." });
      }
      const tabs = await listSheetTabs();
      if (!tabs.includes(tab)) {
        return res.status(404).json({
          error: `La hoja '${tab}' no existe. Hojas disponibles: ${tabs.join(", ")}`,
        });
      }
      const data = await readSheetToJson(tab);
      res.json(data);
    } catch (err) {
      console.error(err);
      res.status(500).json({ error: `No se pudo leer la hoja '${tab}'` });
    }
  });
  \<close>

  The response is its status code and its JSON body. Every exception ends in the
  \<open>catch\<close>: those of the two loaders, and the \<open>TypeError\<close> of \<open>tabs.includes\<close> should
  the cache hand back something that is not an array.
\<close>

datatype body = ErrorJson string | DataJson cached

record response =
  status :: nat
  json :: body

definition read_failed :: "string \<Rightarrow> response" where
  "read_failed tab_param =
     \<lparr>status = 500,
      json = ErrorJson (''No se pudo leer la hoja '' @ [CHR 0x27] @ tab_param @ [CHR 0x27])\<rparr>"

definition api_data ::
  "config \<Rightarrow> int \<Rightarrow> int \<Rightarrow> 'e + string option list option
     \<Rightarrow> int \<Rightarrow> int \<Rightarrow> 'e + string list list option \<Rightarrow> string \<Rightarrow> state \<Rightarrow> response \<times> state" where
  "api_data cfg t1 t2 meta t3 t4 res tab_param s =
     (if SHEET_ID cfg = []
      then (\<lparr>status = 400,
             json = ErrorJson ''Falta configurar SHEET_ID en variables de entorno.''\<rparr>, s)
      else
        case listSheetTabs cfg t1 t2 meta s of
          (Inl e, s1) \<Rightarrow> (read_failed tab_param, s1)
        | (Inr (Sheet x), s1) \<Rightarrow> (read_failed tab_param, s1)
        | (Inr (Tabs tabs), s1) \<Rightarrow>
            if tab_param \<notin> set tabs
            then (\<lparr>status = 404,
                   json = ErrorJson (''La hoja '' @ [CHR 0x27] @ tab_param @ [CHR 0x27]
                            @ '' no existe. Hojas disponibles: '' @ join '', '' tabs)\<rparr>, s1)
            else
              (case readSheetToJson cfg t3 t4 res tab_param s1 of
                 (Inl e, s2) \<Rightarrow> (read_failed tab_param, s2)
               | (Inr d, s2) \<Rightarrow> (\<lparr>status = 200, json = DataJson d\<rparr>, s2)))"

section \<open>Facts about the record builder\<close>

text \<open>Decimal printing is injective, so the synthesized column names are distinct.\<close>

lemma digit_inj: "a < 10 \<Longrightarrow> b < 10 \<Longrightarrow> digit a = digit b \<Longrightarrow> a = b"
proof -
  assume a: "a < 10" and b: "b < 10" and e: "digit a = digit b"
  have A: "a \<in> {0,1,2,3,4,5,6,7,8,9}" using a by auto
  have B: "b \<in> {0,1,2,3,4,5,6,7,8,9}" using b by auto
  show ?thesis using A B e by (auto simp: digit_def)
qed

lemma num_to_string_nonempty: "num_to_string n \<noteq> []" "[] \<noteq> num_to_string n"
  by (subst num_to_string.simps, simp)+

lemma num_to_string_inj: "num_to_string n = num_to_string m \<Longrightarrow> n = m"
proof (induction n arbitrary: m rule: num_to_string.induct)
  case (1 n)
  show ?case
  proof (cases "n < 10")
    case True
    note n = this
    show ?thesis
    proof (cases "m < 10")
      case True
      with n "1.prems" show ?thesis
        by (simp add: num_to_string.simps [of n] num_to_string.simps [of m] digit_inj)
    next
      case False
      with n "1.prems" show ?thesis
        by (simp add: num_to_string.simps [of n] num_to_string.simps [of m]
            num_to_string_nonempty)
    qed
  next
    case False
    note n = this
    show ?thesis
    proof (cases "m < 10")
      case True
      with n "1.prems" show ?thesis
        by (simp add: num_to_string.simps [of n] num_to_string.simps [of m]
            num_to_string_nonempty)
    next
      case False
      with n "1.prems" have pre: "num_to_string (n div 10) = num_to_string (m div 10)"
        and dig: "digit (n mod 10) = digit (m mod 10)"
        by (simp_all add: num_to_string.simps [of n] num_to_string.simps [of m])
      from "1.IH" [OF n pre] have "n div 10 = m div 10" .
      moreover from dig have "n mod 10 = m mod 10" by (intro digit_inj) simp_all
      ultimately show ?thesis by (metis div_mult_mod_eq)
    qed
  qed
qed

lemma col_name_inj: "col_name i = col_name j \<Longrightarrow> i = j"
  using num_to_string_inj [of "i + 1" "j + 1"] by (simp add: col_name_def)

lemma col_name_not_proto: "col_name i \<noteq> ''__proto__''"
  by (simp add: col_name_def)

lemma forEach_set_proto: "forEach_set key hs i0 row obj ''__proto__'' = obj ''__proto__''"
  by (induction hs arbitrary: i0 obj) (simp_all add: obj_set_def)

lemma forEach_set_other:
  "(\<forall>j<length hs. key (i0 + j) (hs ! j) \<noteq> k) \<Longrightarrow> forEach_set key hs i0 row obj k = obj k"
proof (induction hs arbitrary: i0 obj)
  case Nil
  then show ?case by simp
next
  case (Cons h hs)
  have tl: "\<forall>j<length hs. key (Suc i0 + j) (hs ! j) \<noteq> k"
    using Cons.prems by (auto dest: spec [of _ "Suc j" for j])
  have hd: "key i0 h \<noteq> k"
    using Cons.prems by (auto dest: spec [of _ 0])
  show ?case
    using Cons.IH [OF tl] hd by (simp add: obj_set_def)
qed

lemma forEach_set_last:
  "j < length hs \<Longrightarrow> key (i0 + j) (hs ! j) = k \<Longrightarrow> k \<noteq> ''__proto__'' \<Longrightarrow>
   (\<forall>j'. j < j' \<and> j' < length hs \<longrightarrow> key (i0 + j') (hs ! j') \<noteq> k) \<Longrightarrow>
   forEach_set key hs i0 row obj k = Some (cell row (i0 + j))"
proof (induction hs arbitrary: i0 obj j)
  case Nil
  then show ?case by simp
next
  case (Cons h hs)
  show ?case
  proof (cases j)
    case 0
    have tl: "\<forall>j'<length hs. key (Suc i0 + j') (hs ! j') \<noteq> k"
    proof (intro allI impI)
      fix j' assume "j' < length hs"
      with Cons.prems(4) [rule_format, of "Suc j'"] 0 show "key (Suc i0 + j') (hs ! j') \<noteq> k"
        by simp
    qed
    from 0 Cons.prems(2) have "key i0 h = k" by simp
    with forEach_set_other [OF tl] Cons.prems(3) 0 show ?thesis
      by (simp add: obj_set_def)
  next
    case (Suc j0)
    have a: "j0 < length hs" using Cons.prems(1) Suc by simp
    have b: "key (Suc i0 + j0) (hs ! j0) = k" using Cons.prems(2) Suc by simp
    have c: "\<forall>j'. j0 < j' \<and> j' < length hs \<longrightarrow> key (Suc i0 + j') (hs ! j') \<noteq> k"
    proof (intro allI impI)
      fix j' assume "j0 < j' \<and> j' < length hs"
      with Cons.prems(4) [rule_format, of "Suc j'"] Suc show "key (Suc i0 + j') (hs ! j') \<noteq> k"
        by simp
    qed
    from Cons.IH [OF a b Cons.prems(3) c] Suc show ?thesis by simp
  qed
qed

lemma forEach_set_dom:
  "dom (forEach_set key hs i0 row obj) =
   dom obj \<union> ({key (i0 + j) (hs ! j) | j. j < length hs} - {''__proto__''})"
proof (induction hs arbitrary: i0 obj)
  case Nil
  then show ?case by simp
next
  case (Cons h hs)
  have split: "{key (i0 + j) ((h # hs) ! j) | j. j < length (h # hs)} =
      insert (key i0 h) {key (Suc i0 + j) (hs ! j) | j. j < length hs}"
  proof (intro set_eqI iffI)
    fix x assume "x \<in> {key (i0 + j) ((h # hs) ! j) | j. j < length (h # hs)}"
    then obtain j where j: "j < length (h # hs)" "x = key (i0 + j) ((h # hs) ! j)" by blast
    show "x \<in> insert (key i0 h) {key (Suc i0 + j) (hs ! j) | j. j < length hs}"
    proof (cases j)
      case 0
      with j show ?thesis by simp
    next
      case (Suc j0)
      with j have "j0 < length hs" "x = key (Suc i0 + j0) (hs ! j0)" by simp_all
      then show ?thesis by blast
    qed
  next
    fix x assume "x \<in> insert (key i0 h) {key (Suc i0 + j) (hs ! j) | j. j < length hs}"
    then consider "x = key i0 h" | j where "j < length hs" "x = key (Suc i0 + j) (hs ! j)"
      by blast
    then show "x \<in> {key (i0 + j) ((h # hs) ! j) | j. j < length (h # hs)}"
    proof cases
      case 1
      then have "0 < length (h # hs) \<and> x = key (i0 + 0) ((h # hs) ! 0)" by simp
      then show ?thesis by blast
    next
      case 2
      then have "Suc j < length (h # hs) \<and> x = key (i0 + Suc j) ((h # hs) ! Suc j)" by simp
      then show ?thesis by blast
    qed
  qed
  show ?case
    unfolding split forEach_set.simps Cons.IH
    by (auto simp: obj_set_def)
qed

lemma last_position:
  fixes P :: "nat \<Rightarrow> bool"
  assumes "j < n" "P j"
  shows "\<exists>j'. j \<le> j' \<and> j' < n \<and> P j' \<and> (\<forall>j''. j' < j'' \<and> j'' < n \<longrightarrow> \<not> P j'')"
proof -
  let ?S = "{i. j \<le> i \<and> i < n \<and> P i}"
  have fin: "finite ?S" by simp
  have ne: "?S \<noteq> {}" using assms by auto
  have mem: "Max ?S \<in> ?S" using Max_in [OF fin ne] .
  have top: "\<And>i. i \<in> ?S \<Longrightarrow> i \<le> Max ?S" using Max_ge [OF fin] .
  have "\<forall>j''. Max ?S < j'' \<and> j'' < n \<longrightarrow> \<not> P j''"
  proof (intro allI impI notI)
    fix j'' assume a: "Max ?S < j'' \<and> j'' < n" and p: "P j''"
    from mem have "j \<le> Max ?S" by simp
    with a p have "j'' \<in> ?S" by simp
    from top [OF this] a show False by simp
  qed
  with mem show ?thesis by blast
qed


lemma normalize_grid_has_headers:
  "list_ex (\<lambda>h. length h > 0) (map trim r0) \<Longrightarrow>
   normalize_grid t (r0 # body) =
     \<lparr>tab = t, headers = map trim r0,
      rows = map (\<lambda>row. forEach_set header_key (map trim r0) 0 row Map.empty) body\<rparr>"
  by (simp add: normalize_grid_def)

lemma normalize_grid_no_headers:
  "\<not> list_ex (\<lambda>h. length h > 0) (map trim r0) \<Longrightarrow>
   normalize_grid t (r0 # body) =
     \<lparr>tab = t, headers = map trim r0,
      rows = map (\<lambda>row. forEach_set (\<lambda>i h. h)
                (genHeaders (Max (set (map length (r0 # body))))) 0 row Map.empty) body\<rparr>"
  by (simp add: normalize_grid_def)

lemma maxLen_eq:
  "(\<forall>r\<in>set rws. length r \<le> N) \<Longrightarrow> (\<exists>r\<in>set rws. length r = N) \<Longrightarrow>
   Max (set (map length rws)) = N"
  by (intro Max_eqI) auto

lemma genHeaders_lookup:
  "j < N \<Longrightarrow> forEach_set (\<lambda>i h. h) (genHeaders N) 0 row Map.empty (col_name j) = Some (cell row j)"
proof -
  assume j: "j < N"
  have "forEach_set (\<lambda>i h. h) (genHeaders N) 0 row Map.empty (col_name j)
        = Some (cell row (0 + j))"
  proof (rule forEach_set_last)
    show "j < length (genHeaders N)" using j by (simp add: genHeaders_def)
    show "genHeaders N ! j = col_name j" using j by (simp add: genHeaders_def)
    show "col_name j \<noteq> ''__proto__''" by (rule col_name_not_proto)
    show "\<forall>j'. j < j' \<and> j' < length (genHeaders N) \<longrightarrow> genHeaders N ! j' \<noteq> col_name j"
      by (auto simp: genHeaders_def dest: col_name_inj)
  qed
  then show ?thesis by simp
qed

lemma genHeaders_dom:
  "dom (forEach_set (\<lambda>i h. h) (genHeaders N) 0 row Map.empty) = col_name ` {0..<N}"
proof -
  have len: "length (genHeaders N) = N" by (simp add: genHeaders_def)
  have eq: "\<And>j. j < N \<Longrightarrow> genHeaders N ! j = col_name j" by (simp add: genHeaders_def)
  have "{genHeaders N ! j | j. j < length (genHeaders N)} = col_name ` {0..<N}"
  proof (intro set_eqI iffI)
    fix x assume "x \<in> {genHeaders N ! j | j. j < length (genHeaders N)}"
    then obtain j where "j < N" "x = genHeaders N ! j" unfolding len by blast
    then show "x \<in> col_name ` {0..<N}" by (simp add: eq)
  next
    fix x assume "x \<in> col_name ` {0..<N}"
    then obtain j where "j < N" "x = col_name j" by auto
    then have "x = genHeaders N ! j \<and> j < length (genHeaders N)" by (simp add: eq len)
    then show "x \<in> {genHeaders N ! j | j. j < length (genHeaders N)}" by blast
  qed
  moreover have "''__proto__'' \<notin> col_name ` {0..<N}"
    using col_name_not_proto by (auto simp: image_iff dest: sym)
  ultimately show ?thesis
    by (simp add: forEach_set_dom)
qed

lemma has_headers_lookup:
  assumes j: "j < length r0"
    and k: "header_key j (trim (r0 ! j)) = k"
    and ordinary: "k \<noteq> ''__proto__''"
    and last: "\<forall>j'. j < j' \<and> j' < length r0 \<longrightarrow> header_key j' (trim (r0 ! j')) \<noteq> k"
  shows "forEach_set header_key (map trim r0) 0 row Map.empty k = Some (cell row j)"
proof -
  have "forEach_set header_key (map trim r0) 0 row Map.empty k = Some (cell row (0 + j))"
  proof (rule forEach_set_last)
    show "j < length (map trim r0)" using j by simp
    show "header_key (0 + j) (map trim r0 ! j) = k" using j k by simp
    show "k \<noteq> ''__proto__''" by (rule ordinary)
    show "\<forall>j'. j < j' \<and> j' < length (map trim r0)
            \<longrightarrow> header_key (0 + j') (map trim r0 ! j') \<noteq> k"
      using last by simp
  qed
  then show ?thesis by simp
qed

lemma has_headers_card:
  assumes p: "p < q" and q: "q < length hs"
    and same: "header_key p (hs ! p) = header_key q (hs ! q)"
  shows "card (dom (forEach_set header_key hs 0 row Map.empty)) < length hs"
proof -
  let ?K = "map (\<lambda>j. header_key j (hs ! j)) [0..<length hs]"
  have set_K: "set ?K = {header_key (0 + j) (hs ! j) | j. j < length hs}"
    by auto
  have "\<not> distinct ?K"
  proof
    assume d: "distinct ?K"
    have e: "?K ! p = ?K ! q" using p q same by simp
    have "p < length ?K" "q < length ?K" using p q by simp_all
    with d e have "p = q" by (simp only: nth_eq_iff_index_eq)
    with p show False by simp
  qed
  then have "card (set ?K) \<noteq> length ?K" using card_distinct by blast
  moreover have "card (set ?K) \<le> length ?K" by (rule card_length)
  ultimately have less: "card (set ?K) < length hs" by simp
  have "card (set ?K - {''__proto__''}) \<le> card (set ?K)"
    by (intro card_mono) auto
  with less show ?thesis
    unfolding forEach_set_dom set_K [symmetric] by simp
qed

section \<open>Cache store: reading\<close>

text \<open>
  C2. For every key and every time \<open>now\<close>: when the cache holds an entry for the key,
  \<open>getCache\<close> returns absent and removes the entry if \<open>now > expiresAt\<close>, and
  otherwise returns the stored value and leaves the cache, hence the entry and its expiry,
  as it was. Whatever \<open>getCache\<close> returns is the value of an entry that has not
  expired: an expired entry is never returned. A key without an entry is absent, and the
  cache stays as it is.
\<close>

theorem getCache_expiry:
  "(c key = Some item \<and> now > expiresAt item \<longrightarrow>
      getCache now c key = (None, c(key := None)) \<and> snd (getCache now c key) key = None)
   \<and> (c key = Some item \<and> \<not> now > expiresAt item \<longrightarrow>
      getCache now c key = (Some (data item), c) \<and> snd (getCache now c key) key = Some item)
   \<and> (fst (getCache now c key) = Some v \<longrightarrow>
      (\<exists>it. c key = Some it \<and> data it = v \<and> now \<le> expiresAt it))
   \<and> (c key = None \<longrightarrow> getCache now c key = (None, c))"
  by (auto simp: getCache_def split: option.splits if_splits)

theorem getCache_expiry_witness:
  "getCache 101 [''k'' \<mapsto> \<lparr>expiresAt = 100, data = (7::nat)\<rparr>] ''k'' = (None, Map.empty)
   \<and> getCache 100 [''k'' \<mapsto> \<lparr>expiresAt = 100, data = (7::nat)\<rparr>] ''k''
       = (Some 7, [''k'' \<mapsto> \<lparr>expiresAt = 100, data = 7\<rparr>])
   \<and> (\<exists>it. [''k'' \<mapsto> \<lparr>expiresAt = 100, data = (7::nat)\<rparr>] ''k'' = Some it
          \<and> data it = 7 \<and> (100::int) \<le> expiresAt it)"
  using getCache_expiry [of "[''k'' \<mapsto> \<lparr>expiresAt = 100, data = (7::nat)\<rparr>]" "''k''"
      "\<lparr>expiresAt = 100, data = (7::nat)\<rparr>" 101 7]
    getCache_expiry [of "[''k'' \<mapsto> \<lparr>expiresAt = 100, data = (7::nat)\<rparr>]" "''k''"
      "\<lparr>expiresAt = 100, data = (7::nat)\<rparr>" 100 7]
  by simp

section \<open>Cache store: writing\<close>

text \<open>
  C7. For every key, value and ttl: \<open>setCache\<close> replaces whatever entry the key had
  with one that holds the new value and expires at \<open>now + ttl\<close>, and a \<open>getCache\<close>
  of the key at any later time that is not past that expiry returns the newly set value,
  whatever was stored before.
\<close>

theorem setCache_then_getCache:
  "setCache now c key v ttl key = Some \<lparr>expiresAt = now + ttl, data = v\<rparr>
   \<and> (now' \<le> now + ttl \<longrightarrow>
        getCache now' (setCache now c key v ttl) key = (Some v, setCache now c key v ttl))
   \<and> (now' \<le> now + ttl \<and> c key = Some old \<and> data old \<noteq> v \<longrightarrow>
        fst (getCache now' (setCache now c key v ttl) key) \<noteq> Some (data old))"
  by (auto simp: getCache_def setCache_def)

theorem setCache_then_getCache_witness:
  "setCache 1000 [''k'' \<mapsto> \<lparr>expiresAt = 5000, data = ''old''\<rparr>] ''k'' ''new'' 300 ''k''
     = Some \<lparr>expiresAt = 1300, data = ''new''\<rparr>
   \<and> fst (getCache 1300 (setCache 1000 [''k'' \<mapsto> \<lparr>expiresAt = 5000, data = ''old''\<rparr>]
          ''k'' ''new'' 300) ''k'') = Some ''new''
   \<and> fst (getCache 1300 (setCache 1000 [''k'' \<mapsto> \<lparr>expiresAt = 5000, data = ''old''\<rparr>]
          ''k'' ''new'' 300) ''k'') \<noteq> Some ''old''"
  using setCache_then_getCache [of 1000 "[''k'' \<mapsto> \<lparr>expiresAt = 5000, data = ''old''\<rparr>]"
      "''k''" "''new''" 300 1300 "\<lparr>expiresAt = 5000, data = ''old''\<rparr>"]
  by simp

section \<open>Key derivation\<close>

text \<open>Unfolding the zero padding, one byte at a time, when a digest is evaluated.\<close>

lemma zero_padding_unfold:
  "replicate (numeral k) (0::nat) = 0 # replicate (pred_numeral k) 0"
  unfolding numeral_eq_Suc by simp

lemmas md5_eval =
  md5_def md5_pad_def le_bytes8_def le_bytes4_def chunks.simps zero_padding_unfold
  md5_rounds.simps md5_F_def md5_g_def md5_K_def md5_s_def add32_def not32_def rotl32_def

lemma length_hex: "length (hex bs) = 2 * length bs"
  by (induction bs) (simp_all add: hex_def)

lemma length_md5: "length (md5 m) = 16"
  by (simp add: md5_def le_bytes4_def split: prod.splits)


lemma bytes_Tab_A:
  "concat (map utf8 (join ''|'' [''data'', ''S1'', ''Tab A'']))
   = [100, 97, 116, 97, 124, 83, 49, 124, 84, 97, 98, 32, 65]"
  by (simp add: utf8_def)

lemma bytes_Tab_B:
  "concat (map utf8 (join ''|'' [''data'', ''S1'', ''Tab B'']))
   = [100, 97, 116, 97, 124, 83, 49, 124, 84, 97, 98, 32, 66]"
  by (simp add: utf8_def)

lemma md5_Tab_A:
  "md5 [100, 97, 116, 97, 124, 83, 49, 124, 84, 97, 98, 32, 65]
   = [75, 125, 30, 52, 162, 30, 171, 33, 65, 217, 89, 233, 199, 103, 111, 235]"
  by (simp add: md5_eval)

lemma md5_Tab_B:
  "md5 [100, 97, 116, 97, 124, 83, 49, 124, 84, 97, 98, 32, 66]
   = [41, 53, 162, 198, 170, 23, 170, 223, 215, 49, 152, 155, 109, 169, 187, 219]"
  by (simp add: md5_eval)

lemma cacheKey_Tab_A:
  "cacheKey [''data'', ''S1'', ''Tab A''] = ''4b7d1e34a21eab2141d959e9c7676feb''"
  unfolding cacheKey_def bytes_Tab_A md5_Tab_A by (simp add: hex_def hex_digit_def)

lemma cacheKey_Tab_B:
  "cacheKey [''data'', ''S1'', ''Tab B''] = ''2935a2c6aa17aadfd731989b6da9bbdb''"
  unfolding cacheKey_def bytes_Tab_B md5_Tab_B by (simp add: hex_def hex_digit_def)

lemma bytes_tabs_S1:
  "concat (map utf8 (join ''|'' [''tabs'', ''S1''])) = [116, 97, 98, 115, 124, 83, 49]"
  by (simp add: utf8_def)

lemma md5_tabs_S1:
  "md5 [116, 97, 98, 115, 124, 83, 49]
   = [49, 62, 180, 147, 255, 246, 141, 234, 105, 231, 66, 235, 168, 176, 200, 142]"
  by (simp add: md5_eval)

lemma cacheKey_tabs_S1:
  "cacheKey [''tabs'', ''S1''] = ''313eb493fff68dea69e742eba8b0c88e''"
  unfolding cacheKey_def bytes_tabs_S1 md5_tabs_S1 by (simp add: hex_def hex_digit_def)

text \<open>
  C6. \<open>cacheKey\<close> is a function of the list of parts and of nothing else: it reads no
  clock, no cache and no configuration, so equal lists of parts give equal keys, in this
  process and in any other. The keys of \<open>["data", "S1", "Tab A"]\<close> and of
  \<open>["data", "S1", "Tab B"]\<close> are the MD5 digests of \<open>data|S1|Tab A\<close> and of
  \<open>data|S1|Tab B\<close> in hexadecimal, and they differ.
\<close>

theorem cacheKey_deterministic:
  "(parts = parts' \<longrightarrow> cacheKey parts = cacheKey parts')
   \<and> cacheKey [''data'', ''S1'', ''Tab A''] = ''4b7d1e34a21eab2141d959e9c7676feb''
   \<and> cacheKey [''data'', ''S1'', ''Tab B''] = ''2935a2c6aa17aadfd731989b6da9bbdb''
   \<and> cacheKey [''data'', ''S1'', ''Tab A''] \<noteq> cacheKey [''data'', ''S1'', ''Tab B'']"
  by (simp add: cacheKey_Tab_A cacheKey_Tab_B)

theorem cacheKey_deterministic_witness:
  "cacheKey [''data'', ''S1'', ''Tab A''] = cacheKey ([''data'', ''S1''] @ [''Tab A''])
   \<and> cacheKey [''data'', ''S1'', ''Tab A''] \<noteq> cacheKey [''data'', ''S1'', ''Tab B'']"
  using cacheKey_deterministic [of "[''data'', ''S1'', ''Tab A'']" "[''data'', ''S1''] @ [''Tab A'']"]
  by simp

text \<open>
  Every key is a string of 32 characters, whatever the parts: the sixteen bytes of the
  digest, two hexadecimal digits each.
\<close>

theorem cacheKey_length: "length (cacheKey parts) = 32"
  by (simp add: cacheKey_def length_hex length_md5)

section \<open>Normalizing the empty grid\<close>

text \<open>
  C8. For every tab name, the empty grid gives the table with that tab name, no headers
  and no rows.
\<close>

theorem normalize_grid_empty:
  "normalize_grid tabName [] = \<lparr>tab = tabName, headers = [], rows = []\<rparr>"
  by (simp add: normalize_grid_def)

section \<open>A first row without headers\<close>

text \<open>
  C1, as stated, asks that every row of the grid, the blank first row included, becomes a
  record, so that the three-row grid of the specification yields three records. The code
  maps \<open>body = rows.slice(1)\<close> in both branches: the first row is reported as
  \<open>headers\<close> and never becomes a record. The grid of the specification yields two
  records.
\<close>

theorem no_headers_first_row_counterexample:
  "\<not> list_ex (\<lambda>h. length h > 0) (map trim ['''', '''', ''''])
   \<and> rows (normalize_grid ''Sheet1'' [['''', '''', ''''], [''a'', ''b'', ''c''], [''d'', ''e'']])
       = [[''Col1'' \<mapsto> ''a'', ''Col2'' \<mapsto> ''b'', ''Col3'' \<mapsto> ''c''],
          [''Col1'' \<mapsto> ''d'', ''Col2'' \<mapsto> ''e'', ''Col3'' \<mapsto> '''']]
   \<and> length (rows (normalize_grid ''Sheet1''
         [['''', '''', ''''], [''a'', ''b'', ''c''], [''d'', ''e'']])) \<noteq> 3"
  by (simp add: normalize_grid_def trim_def is_ws_def genHeaders_def col_name_def
      num_to_string.simps digit_def obj_set_def cell_def upt_rec)

text \<open>
  C1, amended. For every grid whose first row is blank after trimming, with \<open>N\<close> the
  greatest row length of the whole grid, the first row included: the trimmed first row is
  reported as \<open>headers\<close>, and every row after the first, in order, becomes a record
  whose fields are exactly \<open>Col1\<close> .. \<open>ColN\<close>, the field \<open>Col(j+1)\<close> holding the
  cell \<open>j\<close> of the row, or the empty string where the row is shorter.
\<close>

theorem no_headers_rows:
  assumes blank: "\<not> list_ex (\<lambda>h. length h > 0) (map trim r0)"
    and bound: "\<forall>r\<in>set (r0 # body). length r \<le> N"
    and attained: "\<exists>r\<in>set (r0 # body). length r = N"
  shows "headers (normalize_grid t (r0 # body)) = map trim r0
    \<and> length (rows (normalize_grid t (r0 # body))) = length body
    \<and> (\<forall>i<length body.
          dom (rows (normalize_grid t (r0 # body)) ! i) = col_name ` {0..<N}
          \<and> (\<forall>j<N. (rows (normalize_grid t (r0 # body)) ! i) (col_name j)
                       = Some (cell (body ! i) j)))"
proof -
  have N: "Max (set (map length (r0 # body))) = N"
    using bound attained by (rule maxLen_eq)
  show ?thesis
    unfolding normalize_grid_no_headers [OF blank] N
    by (simp add: genHeaders_lookup genHeaders_dom)
qed

theorem no_headers_rows_witness:
  "\<not> list_ex (\<lambda>h. length h > 0) (map trim ['''', '' '', ''''])
   \<and> length (rows (normalize_grid ''Sheet1''
         [['''', '' '', ''''], [''a'', ''b'', ''c''], [''d'', ''e'']])) = 2
   \<and> (rows (normalize_grid ''Sheet1''
         [['''', '' '', ''''], [''a'', ''b'', ''c''], [''d'', ''e'']]) ! 1) (col_name 2) = Some ''''
   \<and> col_name 2 = ''Col3''"
proof -
  have blank: "\<not> list_ex (\<lambda>h. length h > 0) (map trim ['''', '' '', ''''])"
    by (simp add: trim_def is_ws_def)
  have bound: "\<forall>r\<in>set (['''', '' '', ''''] # [[''a'', ''b'', ''c''], [''d'', ''e'']]). length r \<le> 3"
    by simp
  have attained: "\<exists>r\<in>set (['''', '' '', ''''] # [[''a'', ''b'', ''c''], [''d'', ''e'']]). length r = 3"
    by simp
  have name: "col_name 2 = ''Col3''"
    by (simp add: col_name_def num_to_string.simps digit_def)
  note r = no_headers_rows [OF blank bound attained, of "''Sheet1''"]
  have len: "length (rows (normalize_grid ''Sheet1''
         [['''', '' '', ''''], [''a'', ''b'', ''c''], [''d'', ''e'']])) = 2"
    using r [THEN conjunct2, THEN conjunct1] by simp
  have val: "(rows (normalize_grid ''Sheet1''
         [['''', '' '', ''''], [''a'', ''b'', ''c''], [''d'', ''e'']]) ! 1) (col_name 2) = Some ''''"
    using r [THEN conjunct2, THEN conjunct2, rule_format, of 1, THEN conjunct2, rule_format, of 2]
    by (simp add: cell_def)
  from blank len val name show ?thesis by blast
qed

section \<open>A first row with headers\<close>

text \<open>
  C3, as stated, gives the field of column \<open>j\<close> the value \<open>row[j]\<close>. Two columns can
  have the same key, and then the assignment of the later column overwrites that of the
  earlier one: with the header row \<open>A, A\<close> the record of the row \<open>1, 2\<close> is
  \<open>{A: "2"}\<close>, so the field keyed by header 0 does not hold \<open>row[0]\<close>.
\<close>

theorem has_headers_duplicate_counterexample:
  "list_ex (\<lambda>h. length h > 0) (map trim [''A'', ''A''])
   \<and> header_key 0 (trim ([''A'', ''A''] ! 0)) = ''A''
   \<and> cell [''1'', ''2''] 0 = ''1''
   \<and> rows (normalize_grid ''T'' [[''A'', ''A''], [''1'', ''2'']]) = [[''A'' \<mapsto> ''2'']]
   \<and> (rows (normalize_grid ''T'' [[''A'', ''A''], [''1'', ''2'']]) ! 0)
        (header_key 0 (trim ([''A'', ''A''] ! 0))) \<noteq> Some (cell [''1'', ''2''] 0)"
  by (simp add: normalize_grid_def trim_def is_ws_def header_key_def obj_set_def cell_def)

text \<open>
  C3, amended. For every grid whose trimmed first row has a non-empty cell, every row
  after the first becomes a record, in order. For a column \<open>j\<close> of the header row, let
  \<open>k\<close> be its key: the trimmed header if non-empty, else \<open>Col(j+1)\<close>. Unless \<open>k\<close> is
  \<^verbatim>\<open>__proto__\<close>, every record has a value under \<open>k\<close>, never undefined: it is the cell,
  or the empty string where the row is shorter, of the right-most column whose key is
  \<open>k\<close>; that is the cell \<open>j\<close> itself whenever no later column has the same key.
\<close>

theorem has_headers_rows:
  assumes real: "list_ex (\<lambda>h. length h > 0) (map trim r0)"
    and i: "i < length body"
    and j: "j < length r0"
    and k: "k = header_key j (trim (r0 ! j))"
    and ordinary: "k \<noteq> ''__proto__''"
  shows "length (rows (normalize_grid t (r0 # body))) = length body
    \<and> (\<exists>j'. j \<le> j' \<and> j' < length r0 \<and> header_key j' (trim (r0 ! j')) = k
           \<and> (\<forall>j''. j' < j'' \<and> j'' < length r0 \<longrightarrow> header_key j'' (trim (r0 ! j'')) \<noteq> k)
           \<and> (rows (normalize_grid t (r0 # body)) ! i) k = Some (cell (body ! i) j'))
    \<and> ((\<forall>j''. j < j'' \<and> j'' < length r0 \<longrightarrow> header_key j'' (trim (r0 ! j'')) \<noteq> k)
          \<longrightarrow> (rows (normalize_grid t (r0 # body)) ! i) k = Some (cell (body ! i) j))"
proof -
  let ?rec = "forEach_set header_key (map trim r0) 0 (body ! i) Map.empty"
  have row: "rows (normalize_grid t (r0 # body)) ! i = ?rec"
    using i by (simp add: normalize_grid_has_headers [OF real])
  from last_position [of j "length r0" "\<lambda>j'. header_key j' (trim (r0 ! j')) = k"] j k
  obtain j' where j': "j \<le> j'" "j' < length r0" "header_key j' (trim (r0 ! j')) = k"
    "\<forall>j''. j' < j'' \<and> j'' < length r0 \<longrightarrow> header_key j'' (trim (r0 ! j'')) \<noteq> k"
    by blast
  have one: "\<exists>j'. j \<le> j' \<and> j' < length r0 \<and> header_key j' (trim (r0 ! j')) = k
           \<and> (\<forall>j''. j' < j'' \<and> j'' < length r0 \<longrightarrow> header_key j'' (trim (r0 ! j'')) \<noteq> k)
           \<and> (rows (normalize_grid t (r0 # body)) ! i) k = Some (cell (body ! i) j')"
    using j' has_headers_lookup [OF j'(2) j'(3) ordinary j'(4)] row by auto
  have two: "(\<forall>j''. j < j'' \<and> j'' < length r0 \<longrightarrow> header_key j'' (trim (r0 ! j'')) \<noteq> k)
          \<longrightarrow> (rows (normalize_grid t (r0 # body)) ! i) k = Some (cell (body ! i) j)"
    using has_headers_lookup [OF j k [symmetric] ordinary] row by simp
  have len: "length (rows (normalize_grid t (r0 # body))) = length body"
    by (simp add: normalize_grid_has_headers [OF real])
  from len one two show ?thesis by blast
qed

theorem has_headers_rows_witness:
  "list_ex (\<lambda>h. length h > 0) (map trim [''Name'', ''Age''])
   \<and> (rows (normalize_grid ''T'' [[''Name'', ''Age''], [''Ana'', ''30''], [''Leo'']]) ! 1) ''Age''
       = Some ''''"
proof -
  have real: "list_ex (\<lambda>h. length h > 0) (map trim [''Name'', ''Age''])"
    by (simp add: trim_def is_ws_def)
  have k: "''Age'' = header_key 1 (trim ([''Name'', ''Age''] ! 1))"
    by (simp add: trim_def is_ws_def header_key_def)
  have "(rows (normalize_grid ''T'' [[''Name'', ''Age''], [''Ana'', ''30''], [''Leo'']]) ! 1) ''Age''
       = Some (cell ([[''Ana'', ''30''], [''Leo'']] ! 1) 1)"
    by (rule has_headers_rows [OF real, of 1 "[[''Ana'', ''30''], [''Leo'']]" 1 "''Age''" "''T''",
          OF _ _ k, THEN conjunct2, THEN conjunct2, rule_format]) auto
  with real show ?thesis by (simp add: cell_def)
qed

section \<open>Duplicate header names\<close>

text \<open>
  C10, as stated, takes the value of a duplicated header name from the right-most column
  that has this name. A later column with an empty header gets the synthesized key
  \<open>Col(j+1)\<close>, which can be that very name: with the header row \<open>Col3, Col3\<close> and an
  empty third header, the field \<open>Col3\<close> of the row \<open>a, b, c\<close> holds \<open>c\<close>, the cell of
  the third column, and not \<open>b\<close>.
\<close>

theorem duplicate_header_synthesized_counterexample:
  "trim ([''Col3'', ''Col3'', ''''] ! 0) = ''Col3''
   \<and> trim ([''Col3'', ''Col3'', ''''] ! 1) = ''Col3''
   \<and> trim ([''Col3'', ''Col3'', ''''] ! 2) \<noteq> ''Col3''
   \<and> rows (normalize_grid ''T'' [[''Col3'', ''Col3'', ''''], [''a'', ''b'', ''c'']])
       = [[''Col3'' \<mapsto> ''c'']]
   \<and> (rows (normalize_grid ''T'' [[''Col3'', ''Col3'', ''''], [''a'', ''b'', ''c'']]) ! 0) ''Col3''
       \<noteq> Some ([''a'', ''b'', ''c''] ! 1)"
  by (simp add: normalize_grid_def trim_def is_ws_def header_key_def col_name_def
      num_to_string.simps digit_def obj_set_def cell_def)

text \<open>
  C10, amended. If the same non-empty trimmed header name \<open>h\<close>, other than
  \<^verbatim>\<open>__proto__\<close>, occurs at two column positions \<open>p < q\<close>, every record has one field
  under \<open>h\<close>, and its value is the cell of the right-most column whose key is \<open>h\<close>, a
  column at or after \<open>q\<close>: the column \<open>q\<close> itself when no later column has the key
  \<open>h\<close>. The record has fewer fields than the header row has positions; the cells of the
  earlier columns with that key are not in it.
\<close>

theorem duplicate_header_overwrites:
  assumes p: "p < q" and q: "q < length r0"
    and hp: "trim (r0 ! p) = h" and hq: "trim (r0 ! q) = h"
    and ne: "h \<noteq> []" and ordinary: "h \<noteq> ''__proto__''"
    and i: "i < length body"
  shows "(\<exists>j. q \<le> j \<and> j < length r0 \<and> header_key j (trim (r0 ! j)) = h
            \<and> (\<forall>j'. j < j' \<and> j' < length r0 \<longrightarrow> header_key j' (trim (r0 ! j')) \<noteq> h)
            \<and> (rows (normalize_grid t (r0 # body)) ! i) h = Some (cell (body ! i) j))
       \<and> ((\<forall>j'. q < j' \<and> j' < length r0 \<longrightarrow> header_key j' (trim (r0 ! j')) \<noteq> h)
            \<longrightarrow> (rows (normalize_grid t (r0 # body)) ! i) h = Some (cell (body ! i) q))
       \<and> card (dom (rows (normalize_grid t (r0 # body)) ! i)) < length r0"
proof -
  let ?hs = "map trim r0"
  let ?rec = "forEach_set header_key ?hs 0 (body ! i) Map.empty"
  have pl: "p < length r0" using p q by simp
  have "trim (r0 ! p) \<in> set ?hs" using pl by simp
  with hp ne have real: "list_ex (\<lambda>h. length h > 0) ?hs"
    unfolding list_ex_iff by (intro bexI [of _ h]) simp_all
  have row: "rows (normalize_grid t (r0 # body)) ! i = ?rec"
    using i by (simp add: normalize_grid_has_headers [OF real])
  have kq: "header_key q (trim (r0 ! q)) = h" using hq ne by (simp add: header_key_def)
  have kp: "header_key p (trim (r0 ! p)) = h" using hp ne by (simp add: header_key_def)
  from last_position [of q "length r0" "\<lambda>j. header_key j (trim (r0 ! j)) = h"] q kq
  obtain j where j: "q \<le> j" "j < length r0" "header_key j (trim (r0 ! j)) = h"
    "\<forall>j'. j < j' \<and> j' < length r0 \<longrightarrow> header_key j' (trim (r0 ! j')) \<noteq> h"
    by blast
  have one: "\<exists>j. q \<le> j \<and> j < length r0 \<and> header_key j (trim (r0 ! j)) = h
            \<and> (\<forall>j'. j < j' \<and> j' < length r0 \<longrightarrow> header_key j' (trim (r0 ! j')) \<noteq> h)
            \<and> (rows (normalize_grid t (r0 # body)) ! i) h = Some (cell (body ! i) j)"
    using j has_headers_lookup [OF j(2) j(3) ordinary j(4)] row by auto
  have two: "(\<forall>j'. q < j' \<and> j' < length r0 \<longrightarrow> header_key j' (trim (r0 ! j')) \<noteq> h)
            \<longrightarrow> (rows (normalize_grid t (r0 # body)) ! i) h = Some (cell (body ! i) q)"
    using has_headers_lookup [OF q kq ordinary] row by simp
  have "card (dom ?rec) < length ?hs"
  proof (rule has_headers_card [OF p])
    show "q < length ?hs" using q by simp
    show "header_key p (?hs ! p) = header_key q (?hs ! q)" using kp kq pl q by simp
  qed
  then have three: "card (dom (rows (normalize_grid t (r0 # body)) ! i)) < length r0"
    using row by simp
  from one two three show ?thesis by blast
qed

theorem duplicate_header_overwrites_witness:
  "trim ([''A'', ''B'', '' A''] ! 0) = ''A'' \<and> trim ([''A'', ''B'', '' A''] ! 2) = ''A''
   \<and> (rows (normalize_grid ''T'' [[''A'', ''B'', '' A''], [''1'', ''2'', ''3'']]) ! 0) ''A''
       = Some ''3''
   \<and> card (dom (rows (normalize_grid ''T'' [[''A'', ''B'', '' A''], [''1'', ''2'', ''3'']]) ! 0))
       < 3"
proof -
  have t: "trim ([''A'', ''B'', '' A''] ! 0) = ''A''" "trim ([''A'', ''B'', '' A''] ! 2) = ''A''"
    by (simp_all add: trim_def is_ws_def)
  note r = duplicate_header_overwrites [of 0 2 "[''A'', ''B'', '' A'']" "''A''" 0
      "[[''1'', ''2'', ''3'']]" "''T''", OF _ _ t]
  have val: "(rows (normalize_grid ''T'' [[''A'', ''B'', '' A''], [''1'', ''2'', ''3'']]) ! 0) ''A''
       = Some (cell ([[''1'', ''2'', ''3'']] ! 0) 2)"
    by (rule r [THEN conjunct2, THEN conjunct1, rule_format]) auto
  have crd: "card (dom (rows (normalize_grid ''T'' [[''A'', ''B'', '' A''], [''1'', ''2'', ''3'']]) ! 0))
       < length [''A'', ''B'', '' A'']"
    by (rule r [THEN conjunct2, THEN conjunct2]) simp_all
  from t val crd show ?thesis by (simp add: cell_def)
qed

section \<open>Further facts about the records\<close>

text \<open>
  No record has a field named \<^verbatim>\<open>__proto__\<close>: a column whose key is this name
  leaves no trace in the records. With the header row \<^verbatim>\<open>__proto__, B\<close> the record of
  the row \<open>1, 2\<close> is \<open>{B: "2"}\<close>.
\<close>

theorem proto_header_dropped:
  "forEach_set key hs i row Map.empty ''__proto__'' = None
   \<and> rows (normalize_grid ''T'' [[''__proto__'', ''B''], [''1'', ''2'']]) = [[''B'' \<mapsto> ''2'']]"
  by (simp add: forEach_set_proto normalize_grid_def trim_def is_ws_def header_key_def
      obj_set_def cell_def)

text \<open>
  The grid \<open>Name, Age / Ana, 30 / Leo, ""\<close> has the headers \<open>Name, Age\<close> and the
  records \<open>{Name: "Ana", Age: "30"}\<close> and \<open>{Name: "Leo", Age: ""}\<close>.
\<close>

theorem has_headers_example:
  "normalize_grid ''People'' [[''Name'', ''Age''], [''Ana'', ''30''], [''Leo'', '''']]
   = \<lparr>tab = ''People'', headers = [''Name'', ''Age''],
      rows = [[''Name'' \<mapsto> ''Ana'', ''Age'' \<mapsto> ''30''],
              [''Name'' \<mapsto> ''Leo'', ''Age'' \<mapsto> '''']]\<rparr>"
  by (simp add: normalize_grid_def trim_def is_ws_def header_key_def obj_set_def cell_def)

text \<open>
  A grid that has only its first row yields no records, and the trimmed first row as
  headers, whether or not that row has a non-empty cell.
\<close>

theorem header_only_grid:
  "rows (normalize_grid t [r0]) = [] \<and> headers (normalize_grid t [r0]) = map trim r0"
  by (simp add: normalize_grid_def)

section \<open>A failed upstream fetch\<close>

lemma getCache_miss:
  "fst (getCache now c key) = None \<Longrightarrow> getCache now c key = (None, c(key := None))"
  by (auto simp: getCache_def split: option.splits if_splits)

lemma getCache_miss_entry:
  "fst (getCache now c key) = None \<Longrightarrow> c key = Some item \<Longrightarrow> now > expiresAt item"
  by (auto simp: getCache_def split: option.splits if_splits)

lemma listSheetTabs_failed:
  assumes miss: "fst (getCache t (cache s) (cacheKey [''tabs'', SHEET_ID cfg])) = None"
  shows "listSheetTabs cfg t t' (Inl e) s
    = (Inl e, s\<lparr>cache := (cache s)(cacheKey [''tabs'', SHEET_ID cfg] := None),
                requests := requests s @ [SpreadsheetsGet]\<rparr>)"
  by (simp add: listSheetTabs_def getCache_miss [OF miss])

lemma readSheetToJson_failed:
  assumes miss: "fst (getCache t (cache s) (cacheKey [''data'', SHEET_ID cfg, tabName])) = None"
  shows "readSheetToJson cfg t t' (Inl e) tabName s
    = (Inl e, s\<lparr>cache := (cache s)(cacheKey [''data'', SHEET_ID cfg, tabName] := None),
                requests := requests s @ [ValuesGet ([CHR 0x27] @ tabName @ [CHR 0x27])]\<rparr>)"
  by (simp add: readSheetToJson_def getCache_miss [OF miss])

text \<open>
  C4, as stated, leaves the cache exactly as it was when the upstream fetch fails. The
  lookup that precedes the fetch deletes an entry of the derived key that has expired, and
  the failure does not bring it back: here the cache holds one entry, expired at the time
  of the call, and is empty after the failed call.
\<close>

theorem failed_fetch_evicts_counterexample:
  "fst (readSheetToJson \<lparr>SHEET_ID = ''S1'', CACHE_TTL_MS = 300000\<rparr> 101 102 (Inl ''quota'') ''Tab A''
         \<lparr>cache = [cacheKey [''data'', ''S1'', ''Tab A''] \<mapsto> \<lparr>expiresAt = 100, data = Tabs []\<rparr>],
          requests = []\<rparr>) = Inl ''quota''
   \<and> cache (snd (readSheetToJson \<lparr>SHEET_ID = ''S1'', CACHE_TTL_MS = 300000\<rparr> 101 102
         (Inl ''quota'') ''Tab A''
         \<lparr>cache = [cacheKey [''data'', ''S1'', ''Tab A''] \<mapsto> \<lparr>expiresAt = 100, data = Tabs []\<rparr>],
          requests = []\<rparr>)) = Map.empty
   \<and> [cacheKey [''data'', ''S1'', ''Tab A''] \<mapsto> \<lparr>expiresAt = 100, data = Tabs []\<rparr>]
       \<noteq> cache (snd (readSheetToJson \<lparr>SHEET_ID = ''S1'', CACHE_TTL_MS = 300000\<rparr> 101 102
         (Inl ''quota'') ''Tab A''
         \<lparr>cache = [cacheKey [''data'', ''S1'', ''Tab A''] \<mapsto> \<lparr>expiresAt = 100, data = Tabs []\<rparr>],
          requests = []\<rparr>))"
  by (simp add: readSheetToJson_def getCache_def)

text \<open>
  C4, amended. For every state of the cache, whatever its other entries, if the upstream
  fetch performed by \<open>listSheetTabs\<close> fails, and likewise if the one performed by
  \<open>readSheetToJson\<close> fails, the error propagates to the caller and no entry is created
  or overwritten: every key other than the derived key of that loader is as before the
  call, every entry of the cache after the call was there before, and the derived key has
  no entry. It had none before, or one that had expired by the time of the call, which
  the lookup before the fetch removed; where it had none, the cache is exactly as it was.
  Each loader fetches when the lookup of its own key misses, and only then.
\<close>

theorem failed_fetch_keeps_cache:
  "(fst (getCache t (cache s) (cacheKey [''tabs'', SHEET_ID cfg])) = None \<longrightarrow>
      fst (listSheetTabs cfg t t' (Inl e :: 'e + string option list option) s) = Inl e
      \<and> cache (snd (listSheetTabs cfg t t' (Inl e :: 'e + string option list option) s))
          = (cache s)(cacheKey [''tabs'', SHEET_ID cfg] := None)
      \<and> (\<forall>k. k \<noteq> cacheKey [''tabs'', SHEET_ID cfg] \<longrightarrow>
            cache (snd (listSheetTabs cfg t t' (Inl e :: 'e + string option list option) s)) k
            = cache s k)
      \<and> (\<forall>k item.
            cache (snd (listSheetTabs cfg t t' (Inl e :: 'e + string option list option) s)) k
              = Some item \<longrightarrow> cache s k = Some item)
      \<and> (\<forall>item. cache s (cacheKey [''tabs'', SHEET_ID cfg]) = Some item \<longrightarrow> t > expiresAt item)
      \<and> (cache s (cacheKey [''tabs'', SHEET_ID cfg]) = None \<longrightarrow>
            cache (snd (listSheetTabs cfg t t' (Inl e :: 'e + string option list option) s))
            = cache s))
   \<and> (fst (getCache u (cache s) (cacheKey [''data'', SHEET_ID cfg, tabName])) = None \<longrightarrow>
      fst (readSheetToJson cfg u u' (Inl d :: 'f + string list list option) tabName s) = Inl d
      \<and> cache (snd (readSheetToJson cfg u u' (Inl d :: 'f + string list list option) tabName s))
          = (cache s)(cacheKey [''data'', SHEET_ID cfg, tabName] := None)
      \<and> (\<forall>k. k \<noteq> cacheKey [''data'', SHEET_ID cfg, tabName] \<longrightarrow>
            cache (snd (readSheetToJson cfg u u' (Inl d :: 'f + string list list option)
                     tabName s)) k
            = cache s k)
      \<and> (\<forall>k item.
            cache (snd (readSheetToJson cfg u u' (Inl d :: 'f + string list list option)
                     tabName s)) k
              = Some item \<longrightarrow> cache s k = Some item)
      \<and> (\<forall>item. cache s (cacheKey [''data'', SHEET_ID cfg, tabName]) = Some item
            \<longrightarrow> u > expiresAt item)
      \<and> (cache s (cacheKey [''data'', SHEET_ID cfg, tabName]) = None \<longrightarrow>
            cache (snd (readSheetToJson cfg u u' (Inl d :: 'f + string list list option)
                     tabName s))
            = cache s))"
proof (intro conjI impI)
  assume miss: "fst (getCache t (cache s) (cacheKey [''tabs'', SHEET_ID cfg])) = None"
  let ?key = "cacheKey [''tabs'', SHEET_ID cfg]"
  let ?l = "listSheetTabs cfg t t' (Inl e :: 'e + string option list option) s"
  have after: "cache (snd ?l) = (cache s)(?key := None)"
    unfolding listSheetTabs_failed [OF miss] by simp
  show "fst ?l = Inl e"
    unfolding listSheetTabs_failed [OF miss] by simp
  show "cache (snd ?l) = (cache s)(?key := None)"
    by (rule after)
  show "\<forall>k. k \<noteq> ?key \<longrightarrow> cache (snd ?l) k = cache s k"
    unfolding after by simp
  show "\<forall>k item. cache (snd ?l) k = Some item \<longrightarrow> cache s k = Some item"
    unfolding after by (simp split: if_splits)
  show "\<forall>item. cache s ?key = Some item \<longrightarrow> t > expiresAt item"
    using getCache_miss_entry [OF miss] by blast
  assume none: "cache s ?key = None"
  show "cache (snd ?l) = cache s"
    unfolding after using none by (auto simp: fun_eq_iff)
next
  assume miss: "fst (getCache u (cache s) (cacheKey [''data'', SHEET_ID cfg, tabName])) = None"
  let ?key = "cacheKey [''data'', SHEET_ID cfg, tabName]"
  let ?r = "readSheetToJson cfg u u' (Inl d :: 'f + string list list option) tabName s"
  have after: "cache (snd ?r) = (cache s)(?key := None)"
    unfolding readSheetToJson_failed [OF miss] by simp
  show "fst ?r = Inl d"
    unfolding readSheetToJson_failed [OF miss] by simp
  show "cache (snd ?r) = (cache s)(?key := None)"
    by (rule after)
  show "\<forall>k. k \<noteq> ?key \<longrightarrow> cache (snd ?r) k = cache s k"
    unfolding after by simp
  show "\<forall>k item. cache (snd ?r) k = Some item \<longrightarrow> cache s k = Some item"
    unfolding after by (simp split: if_splits)
  show "\<forall>item. cache s ?key = Some item \<longrightarrow> u > expiresAt item"
    using getCache_miss_entry [OF miss] by blast
  assume none: "cache s ?key = None"
  show "cache (snd ?r) = cache s"
    unfolding after using none by (auto simp: fun_eq_iff)
qed

text \<open>
  The theorem at two caches that hold both keys. In the first the tab list is live and
  the entry of \<open>Tab A\<close> has expired: the failed grid fetch leaves the tab list in place
  and the expired entry is gone. In the second the tab list has expired and the entry of
  \<open>Tab A\<close> is live: the failed fetch of the tab list leaves the table in place.
\<close>

theorem failed_fetch_keeps_cache_witness:
  "fst (readSheetToJson \<lparr>SHEET_ID = ''S1'', CACHE_TTL_MS = 300000\<rparr> 101 102
          (Inl ''quota'' :: string + string list list option) ''Tab A''
          \<lparr>cache = [cacheKey [''tabs'', ''S1''] \<mapsto> \<lparr>expiresAt = 500000, data = Tabs [''Tab A'']\<rparr>,
                    cacheKey [''data'', ''S1'', ''Tab A'']
                      \<mapsto> \<lparr>expiresAt = 100, data = Sheet (normalize_grid ''Tab A'' [])\<rparr>],
           requests = []\<rparr>) = Inl ''quota''
   \<and> cache (snd (readSheetToJson \<lparr>SHEET_ID = ''S1'', CACHE_TTL_MS = 300000\<rparr> 101 102
          (Inl ''quota'' :: string + string list list option) ''Tab A''
          \<lparr>cache = [cacheKey [''tabs'', ''S1''] \<mapsto> \<lparr>expiresAt = 500000, data = Tabs [''Tab A'']\<rparr>,
                    cacheKey [''data'', ''S1'', ''Tab A'']
                      \<mapsto> \<lparr>expiresAt = 100, data = Sheet (normalize_grid ''Tab A'' [])\<rparr>],
           requests = []\<rparr>)) (cacheKey [''tabs'', ''S1''])
       = Some \<lparr>expiresAt = 500000, data = Tabs [''Tab A'']\<rparr>
   \<and> cache (snd (readSheetToJson \<lparr>SHEET_ID = ''S1'', CACHE_TTL_MS = 300000\<rparr> 101 102
          (Inl ''quota'' :: string + string list list option) ''Tab A''
          \<lparr>cache = [cacheKey [''tabs'', ''S1''] \<mapsto> \<lparr>expiresAt = 500000, data = Tabs [''Tab A'']\<rparr>,
                    cacheKey [''data'', ''S1'', ''Tab A'']
                      \<mapsto> \<lparr>expiresAt = 100, data = Sheet (normalize_grid ''Tab A'' [])\<rparr>],
           requests = []\<rparr>)) (cacheKey [''data'', ''S1'', ''Tab A'']) = None
   \<and> fst (listSheetTabs \<lparr>SHEET_ID = ''S1'', CACHE_TTL_MS = 300000\<rparr> 101 102
          (Inl ''quota'' :: string + string option list option)
          \<lparr>cache = [cacheKey [''tabs'', ''S1''] \<mapsto> \<lparr>expiresAt = 100, data = Tabs [''Tab A'']\<rparr>,
                    cacheKey [''data'', ''S1'', ''Tab A'']
                      \<mapsto> \<lparr>expiresAt = 500000, data = Sheet (normalize_grid ''Tab A'' [])\<rparr>],
           requests = []\<rparr>) = Inl ''quota''
   \<and> cache (snd (listSheetTabs \<lparr>SHEET_ID = ''S1'', CACHE_TTL_MS = 300000\<rparr> 101 102
          (Inl ''quota'' :: string + string option list option)
          \<lparr>cache = [cacheKey [''tabs'', ''S1''] \<mapsto> \<lparr>expiresAt = 100, data = Tabs [''Tab A'']\<rparr>,
                    cacheKey [''data'', ''S1'', ''Tab A'']
                      \<mapsto> \<lparr>expiresAt = 500000, data = Sheet (normalize_grid ''Tab A'' [])\<rparr>],
           requests = []\<rparr>)) (cacheKey [''data'', ''S1'', ''Tab A''])
       = Some \<lparr>expiresAt = 500000, data = Sheet (normalize_grid ''Tab A'' [])\<rparr>
   \<and> cache (snd (listSheetTabs \<lparr>SHEET_ID = ''S1'', CACHE_TTL_MS = 300000\<rparr> 101 102
          (Inl ''quota'' :: string + string option list option)
          \<lparr>cache = [cacheKey [''tabs'', ''S1''] \<mapsto> \<lparr>expiresAt = 100, data = Tabs [''Tab A'']\<rparr>,
                    cacheKey [''data'', ''S1'', ''Tab A'']
                      \<mapsto> \<lparr>expiresAt = 500000, data = Sheet (normalize_grid ''Tab A'' [])\<rparr>],
           requests = []\<rparr>)) (cacheKey [''tabs'', ''S1'']) = None"
proof -
  let ?cfg = "\<lparr>SHEET_ID = ''S1'', CACHE_TTL_MS = 300000\<rparr>"
  let ?kt = "cacheKey [''tabs'', ''S1'']"
  let ?kd = "cacheKey [''data'', ''S1'', ''Tab A'']"
  let ?sheet = "Sheet (normalize_grid ''Tab A'' [])"
  let ?sa = "\<lparr>cache = [?kt \<mapsto> \<lparr>expiresAt = 500000, data = Tabs [''Tab A'']\<rparr>,
                         ?kd \<mapsto> \<lparr>expiresAt = 100, data = ?sheet\<rparr>],
                requests = []\<rparr>"
  let ?sb = "\<lparr>cache = [?kt \<mapsto> \<lparr>expiresAt = 100, data = Tabs [''Tab A'']\<rparr>,
                         ?kd \<mapsto> \<lparr>expiresAt = 500000, data = ?sheet\<rparr>],
                requests = []\<rparr>"
  have distinct_keys: "?kt \<noteq> ?kd" "?kd \<noteq> ?kt"
    by (simp_all add: cacheKey_tabs_S1 cacheKey_Tab_A)
  have data_miss: "fst (getCache 101 (cache ?sa) (cacheKey [''data'', SHEET_ID ?cfg, ''Tab A''])) = None"
    by (simp add: getCache_def)
  have tabs_miss: "fst (getCache 101 (cache ?sb) (cacheKey [''tabs'', SHEET_ID ?cfg])) = None"
    using distinct_keys by (simp add: getCache_def)
  note read = failed_fetch_keeps_cache [where 'e = string and 'f = string and cfg = ?cfg
      and s = ?sa and u = 101 and u' = 102 and d = "''quota''" and tabName = "''Tab A''",
      THEN conjunct2, rule_format, OF data_miss]
  note list = failed_fetch_keeps_cache [where 'e = string and 'f = string and cfg = ?cfg
      and s = ?sb and t = 101 and t' = 102 and e = "''quota''",
      THEN conjunct1, rule_format, OF tabs_miss]
  have r1: "fst (readSheetToJson ?cfg 101 102 (Inl ''quota'' :: string + string list list option)
      ''Tab A'' ?sa) = Inl ''quota''"
    using read [THEN conjunct1] by simp
  have r2: "cache (snd (readSheetToJson ?cfg 101 102
      (Inl ''quota'' :: string + string list list option) ''Tab A'' ?sa)) ?kt
      = Some \<lparr>expiresAt = 500000, data = Tabs [''Tab A'']\<rparr>"
    using read [THEN conjunct2, THEN conjunct1] distinct_keys by simp
  have r3: "cache (snd (readSheetToJson ?cfg 101 102
      (Inl ''quota'' :: string + string list list option) ''Tab A'' ?sa)) ?kd = None"
    using read [THEN conjunct2, THEN conjunct1] by simp
  have l1: "fst (listSheetTabs ?cfg 101 102 (Inl ''quota'' :: string + string option list option)
      ?sb) = Inl ''quota''"
    using list [THEN conjunct1] by simp
  have l2: "cache (snd (listSheetTabs ?cfg 101 102
      (Inl ''quota'' :: string + string option list option) ?sb)) ?kd
      = Some \<lparr>expiresAt = 500000, data = ?sheet\<rparr>"
    using list [THEN conjunct2, THEN conjunct1] distinct_keys by simp
  have l3: "cache (snd (listSheetTabs ?cfg 101 102
      (Inl ''quota'' :: string + string option list option) ?sb)) ?kt = None"
    using list [THEN conjunct2, THEN conjunct1] by simp
  from r1 r2 r3 l1 l2 l3 show ?thesis by blast
qed

section \<open>Populating the cache on a miss\<close>

lemma readSheetToJson_fetched:
  assumes miss: "fst (getCache t (cache s) (cacheKey [''data'', SHEET_ID cfg, tabName])) = None"
  shows "readSheetToJson cfg t t' (Inr vals) tabName s
    = (Inr (Sheet (normalize_grid tabName (case vals of None \<Rightarrow> [] | Some v \<Rightarrow> v))),
       s\<lparr>cache := setCache t' ((cache s)(cacheKey [''data'', SHEET_ID cfg, tabName] := None))
                    (cacheKey [''data'', SHEET_ID cfg, tabName])
                    (Sheet (normalize_grid tabName (case vals of None \<Rightarrow> [] | Some v \<Rightarrow> v)))
                    (CACHE_TTL_MS cfg),
         requests := requests s @ [ValuesGet ([CHR 0x27] @ tabName @ [CHR 0x27])]\<rparr>)"
  by (simp add: readSheetToJson_def getCache_miss [OF miss] Let_def)

lemma readSheetToJson_hit:
  assumes entry: "cache s (cacheKey [''data'', SHEET_ID cfg, tabName]) = Some item"
    and live: "t \<le> expiresAt item"
  shows "readSheetToJson cfg t t' res tabName s = (Inr (data item), s)"
  using entry live by (simp add: readSheetToJson_def getCache_def)

lemma readSheetToJson_expired:
  assumes entry: "cache s (cacheKey [''data'', SHEET_ID cfg, tabName]) = Some item"
    and expired: "t > expiresAt item"
  shows "requests (snd (readSheetToJson cfg t t' res tabName s))
    = requests s @ [ValuesGet ([CHR 0x27] @ tabName @ [CHR 0x27])]"
  using entry expired by (simp add: readSheetToJson_def getCache_def Let_def split: sum.splits)

text \<open>
  C5. For every tab name \<open>X\<close>: when the first call of \<open>readSheetToJson\<close> finds no live
  entry and its fetch succeeds, a second call whose clock reading is within the time to
  live of the entry just stored fetches nothing and returns the stored table, so the two
  calls make exactly one grid fetch; a third call after the entry has expired fetches
  again, whatever the upstream answers then.
\<close>

theorem readSheetToJson_fetches_once_within_ttl:
  assumes miss: "fst (getCache t1 (cache s0) (cacheKey [''data'', SHEET_ID cfg, X])) = None"
    and s1: "s1 = snd (readSheetToJson cfg t1 t1' (Inr vals :: 'e + string list list option) X s0)"
    and within: "t2 \<le> t1' + CACHE_TTL_MS cfg"
    and s2: "s2 = snd (readSheetToJson cfg t2 t2' res' X s1)"
    and after: "t3 > t1' + CACHE_TTL_MS cfg"
    and s3: "s3 = snd (readSheetToJson cfg t3 t3' res'' X s2)"
  shows "grid_fetches s1 = grid_fetches s0 + 1
    \<and> grid_fetches s2 = grid_fetches s0 + 1
    \<and> fst (readSheetToJson cfg t2 t2' res' X s1)
        = fst (readSheetToJson cfg t1 t1' (Inr vals :: 'e + string list list option) X s0)
    \<and> fst (readSheetToJson cfg t2 t2' res' X s1)
        = Inr (Sheet (normalize_grid X (case vals of None \<Rightarrow> [] | Some v \<Rightarrow> v)))
    \<and> grid_fetches s3 = grid_fetches s0 + 2
    \<and> requests s3 = requests s0 @ [ValuesGet ([CHR 0x27] @ X @ [CHR 0x27]),
                                     ValuesGet ([CHR 0x27] @ X @ [CHR 0x27])]"
proof -
  let ?key = "cacheKey [''data'', SHEET_ID cfg, X]"
  let ?result = "Sheet (normalize_grid X (case vals of None \<Rightarrow> [] | Some v \<Rightarrow> v))"
  let ?item = "\<lparr>expiresAt = t1' + CACHE_TTL_MS cfg, data = ?result\<rparr>"
  have first: "fst (readSheetToJson cfg t1 t1' (Inr vals :: 'e + string list list option) X s0)
      = Inr ?result"
    unfolding readSheetToJson_fetched [OF miss] by simp
  have entry1: "cache s1 ?key = Some ?item"
    unfolding s1 readSheetToJson_fetched [OF miss] by (simp add: setCache_def)
  have req1: "requests s1 = requests s0 @ [ValuesGet ([CHR 0x27] @ X @ [CHR 0x27])]"
    unfolding s1 readSheetToJson_fetched [OF miss] by simp
  have second: "readSheetToJson cfg t2 t2' res' X s1 = (Inr ?result, s1)"
    using readSheetToJson_hit [OF entry1, of t2 t2' res'] within by simp
  have same: "s2 = s1"
    unfolding s2 second by simp
  have req3: "requests s3 = requests s2 @ [ValuesGet ([CHR 0x27] @ X @ [CHR 0x27])]"
    unfolding s3 using readSheetToJson_expired [of s2 cfg X ?item t3 t3' res''] entry1 after same
    by simp
  show ?thesis
    unfolding grid_fetches_def req3 same req1 second first by simp
qed

theorem readSheetToJson_fetches_once_within_ttl_witness:
  "grid_fetches (snd (readSheetToJson \<lparr>SHEET_ID = ''S1'', CACHE_TTL_MS = 300000\<rparr> 301200 301200
      (Inl ''unused'') ''X''
      (snd (readSheetToJson \<lparr>SHEET_ID = ''S1'', CACHE_TTL_MS = 300000\<rparr> 1000 1200
         (Inr (Some [[''Name''], [''Ana'']]) :: string + string list list option) ''X'' \<lparr>cache = Map.empty, requests = []\<rparr>)))) = 1
   \<and> fst (readSheetToJson \<lparr>SHEET_ID = ''S1'', CACHE_TTL_MS = 300000\<rparr> 301200 301200
      (Inl ''unused'') ''X''
      (snd (readSheetToJson \<lparr>SHEET_ID = ''S1'', CACHE_TTL_MS = 300000\<rparr> 1000 1200
         (Inr (Some [[''Name''], [''Ana'']]) :: string + string list list option) ''X'' \<lparr>cache = Map.empty, requests = []\<rparr>)))
       = Inr (Sheet (normalize_grid ''X'' [[''Name''], [''Ana'']]))
   \<and> grid_fetches (snd (readSheetToJson \<lparr>SHEET_ID = ''S1'', CACHE_TTL_MS = 300000\<rparr> 301201 301300
      (Inl ''down'') ''X''
      (snd (readSheetToJson \<lparr>SHEET_ID = ''S1'', CACHE_TTL_MS = 300000\<rparr> 301200 301200
        (Inl ''unused'') ''X''
        (snd (readSheetToJson \<lparr>SHEET_ID = ''S1'', CACHE_TTL_MS = 300000\<rparr> 1000 1200
           (Inr (Some [[''Name''], [''Ana'']]) :: string + string list list option) ''X''
           \<lparr>cache = Map.empty, requests = []\<rparr>)))))) = 2"
proof -
  let ?cfg = "\<lparr>SHEET_ID = ''S1'', CACHE_TTL_MS = 300000\<rparr>"
  let ?s0 = "\<lparr>cache = Map.empty, requests = []\<rparr> :: state"
  have miss: "fst (getCache 1000 (cache ?s0) (cacheKey [''data'', SHEET_ID ?cfg, ''X''])) = None"
    by (simp add: getCache_def)
  have within: "(301200::int) \<le> 1200 + CACHE_TTL_MS ?cfg" by simp
  have after: "(301201::int) > 1200 + CACHE_TTL_MS ?cfg" by simp
  have zero: "grid_fetches ?s0 = 0" by (simp add: grid_fetches_def)
  note r = readSheetToJson_fetches_once_within_ttl [
      where 'e = string and vals = "Some [[''Name''], [''Ana'']]" and t2' = 301200
        and res' = "Inl ''unused''" and t3' = 301300 and res'' = "Inl ''down''",
      OF miss refl within refl after refl]
  note two = r [THEN conjunct2, THEN conjunct1]
  note hit = r [THEN conjunct2, THEN conjunct2, THEN conjunct2, THEN conjunct1]
  note three = r [THEN conjunct2, THEN conjunct2, THEN conjunct2, THEN conjunct2, THEN conjunct1]
  from two hit three zero show ?thesis by simp
qed

section \<open>Tab validation at the data endpoint\<close>

text \<open>
  C9. For every requested tab name that is not in the list which \<open>listSheetTabs\<close>
  returns to the handler (the sheet id being configured), the data endpoint answers 404
  and does not call \<open>readSheetToJson\<close>: the state is the one \<open>listSheetTabs\<close> left,
  and the log holds no grid fetch that was not there before the request.
\<close>

theorem api_data_unknown_tab:
  assumes configured: "SHEET_ID cfg \<noteq> []"
    and listed: "listSheetTabs cfg t1 t2 meta s = (Inr (Tabs tabs), s1)"
    and absent: "tab_param \<notin> set tabs"
  shows "status (fst (api_data cfg t1 t2 meta t3 t4 res tab_param s)) = 404
    \<and> snd (api_data cfg t1 t2 meta t3 t4 res tab_param s) = s1
    \<and> grid_fetches (snd (api_data cfg t1 t2 meta t3 t4 res tab_param s)) = grid_fetches s
    \<and> filter is_ValuesGet (requests (snd (api_data cfg t1 t2 meta t3 t4 res tab_param s)))
        = filter is_ValuesGet (requests s)"
proof -
  have resp: "api_data cfg t1 t2 meta t3 t4 res tab_param s
    = (\<lparr>status = 404,
        json = ErrorJson (''La hoja '' @ [CHR 0x27] @ tab_param @ [CHR 0x27]
                 @ '' no existe. Hojas disponibles: '' @ join '', '' tabs)\<rparr>, s1)"
    using configured absent by (simp add: api_data_def listed)
  have "snd (listSheetTabs cfg t1 t2 meta s) = s1" by (simp add: listed)
  then have log: "filter is_ValuesGet (requests s1) = filter is_ValuesGet (requests s)"
    by (auto simp: listSheetTabs_def Let_def split: prod.splits option.splits sum.splits)
  show ?thesis
    unfolding resp using log by (simp add: grid_fetches_def)
qed

theorem api_data_unknown_tab_witness:
  "status (fst (api_data \<lparr>SHEET_ID = ''S1'', CACHE_TTL_MS = 300000\<rparr> 1000 1200
      (Inr (Some [Some ''Tab A'', None, Some ''Tab B''])) 1300 1400 (Inl ''unused'') ''Tab C''
      \<lparr>cache = Map.empty, requests = []\<rparr>)) = 404
   \<and> requests (snd (api_data \<lparr>SHEET_ID = ''S1'', CACHE_TTL_MS = 300000\<rparr> 1000 1200
      (Inr (Some [Some ''Tab A'', None, Some ''Tab B''])) 1300 1400 (Inl ''unused'') ''Tab C''
      \<lparr>cache = Map.empty, requests = []\<rparr>)) = [SpreadsheetsGet]"
proof -
  let ?cfg = "\<lparr>SHEET_ID = ''S1'', CACHE_TTL_MS = 300000\<rparr>"
  let ?s = "\<lparr>cache = Map.empty, requests = []\<rparr> :: state"
  let ?meta = "Inr (Some [Some ''Tab A'', None, Some ''Tab B'']) :: string + string option list option"
  have configured: "SHEET_ID ?cfg \<noteq> []" by simp
  have listed: "listSheetTabs ?cfg 1000 1200 ?meta ?s
    = (Inr (Tabs [''Tab A'', ''Tab B'']), snd (listSheetTabs ?cfg 1000 1200 ?meta ?s))"
    by (simp add: listSheetTabs_def getCache_def titles_def)
  have absent: "''Tab C'' \<notin> set [''Tab A'', ''Tab B'']" by simp
  have log: "requests (snd (listSheetTabs ?cfg 1000 1200 ?meta ?s)) = [SpreadsheetsGet]"
    by (simp add: listSheetTabs_def getCache_def titles_def)
  from api_data_unknown_tab [OF configured listed absent, of 1300 1400 "Inl ''unused''"] log
  show ?thesis by simp
qed

end
